theory Spec2Isabelle
  imports Main "HOL-Library.AList" "HOL-Library.Multiset" "HOL-Library.Char_ord"
    "HOL-Library.List_Lexorder" "HOL-Library.Sublist"
begin

section \<open>Values, errors and the backing files\<close>

text \<open>
  The cache layer of \<^verbatim>\<open>cache_manager.py\<close> keeps three JSON files. Everything it
  stores and returns is a JSON value, so Python values are modelled by the JSON value
  type below (floats are left out: no operation of the cache computes with them). A
  Python \<^verbatim>\<open>dict\<close> with string keys is an association list in insertion order;
  \<^verbatim>\<open>d[k] = v\<close> is \<open>AList.update\<close>, which replaces in place or appends, as the
  dictionary does. The \<^verbatim>\<open>print\<close> calls of the module are left out.
\<close>

datatype json =
    JNull
  | JBool bool
  | JInt int
  | JStr string
  | JArr "json list"
  | JObj "(string \<times> json) list"

type_synonym pydict = "(string \<times> json) list"

text \<open>The exceptions the modelled code can raise or catch.\<close>

datatype py_error =
    KeyError
  | TypeError
  | ValueError
  | OverflowError
  | OSError
  | JSONDecodeError
  | AttributeError

text \<open>
  The three files of \<^verbatim>\<open>CacheManager.__init__\<close>, and the state of a file as
  \<^verbatim>\<open>Path.exists\<close>, \<^verbatim>\<open>open\<close> and \<^verbatim>\<open>json.load\<close> see it: a path that cannot
  be reached (\<^verbatim>\<open>exists()\<close> raises an \<^verbatim>\<open>OSError\<close>, as it does with
  \<^verbatim>\<open>PermissionError\<close> when the directory may not be searched), no file, a file
  that cannot be opened or read, a file whose text is not JSON, or a file holding a JSON
  document, which need not be an object. A file may or may not accept a write.
\<close>

datatype cache_file = ArticlesCache | AnalysisCache | SentArticles

datatype file_state = Inaccessible | Absent | Unreadable | Malformed | Doc json

record disk =
  files :: "cache_file \<Rightarrow> file_state"
  writable :: "cache_file \<Rightarrow> bool"

text \<open>\<^verbatim>\<open>cache_file.exists()\<close>.\<close>

fun path_exists :: "file_state \<Rightarrow> py_error + bool" where
  "path_exists Inaccessible = Inl OSError"
| "path_exists Absent = Inr False"
| "path_exists content = Inr True"

text \<open>\<^verbatim>\<open>with open(cache_file, 'r') as f: return json.load(f)\<close>, with its exceptions.\<close>

fun read_json :: "file_state \<Rightarrow> py_error + json" where
  "read_json (Doc v) = Inr v"
| "read_json Malformed = Inl JSONDecodeError"
| "read_json content = Inl OSError"

text \<open>
  \<^verbatim>\<open>_load_cache\<close>: the call of \<^verbatim>\<open>exists()\<close> stands before the \<^verbatim>\<open>try\<close>, so
  its exception leaves the function; the \<^verbatim>\<open>except Exception\<close> branch turns every
  error of the read into \<^verbatim>\<open>{}\<close>.
\<close>

definition load_cache :: "disk \<Rightarrow> cache_file \<Rightarrow> py_error + json" where
  "load_cache d cache_file =
     (case path_exists (files d cache_file) of
        Inl e \<Rightarrow> Inl e
      | Inr present \<Rightarrow>
          if present
          then (case read_json (files d cache_file) of Inr v \<Rightarrow> Inr v | Inl e \<Rightarrow> Inr (JObj []))
          else Inr (JObj []))"

text \<open>
  \<^verbatim>\<open>_save_cache\<close>: a failed \<^verbatim>\<open>open(cache_file, 'w')\<close> (the path cannot be reached,
  or the file takes no write) is caught and leaves the file as it was; \<^verbatim>\<open>json.dump\<close>
  cannot fail on a JSON value.
\<close>

definition save_cache :: "disk \<Rightarrow> cache_file \<Rightarrow> pydict \<Rightarrow> disk" where
  "save_cache d cache_file data =
     (if writable d cache_file \<and> files d cache_file \<noteq> Inaccessible
      then d\<lparr>files := (files d)(cache_file := Doc (JObj data))\<rparr>
      else d)"

section \<open>Operators on values\<close>

text \<open>\<^verbatim>\<open>a['url']\<close> on a dictionary: \<^verbatim>\<open>KeyError\<close> when the key is missing.\<close>

definition getitem :: "pydict \<Rightarrow> string \<Rightarrow> py_error + json" where
  "getitem m k = (case map_of m k of None \<Rightarrow> Inl KeyError | Some v \<Rightarrow> Inr v)"

text \<open>\<^verbatim>\<open>entry['timestamp']\<close> on any value: only a dictionary takes a string subscript.\<close>

fun subscript :: "json \<Rightarrow> string \<Rightarrow> py_error + json" where
  "subscript (JObj m) k = getitem m k"
| "subscript v k = Inl TypeError"

text \<open>Lists and dictionaries are unhashable, so they are no dictionary keys.\<close>

fun hashable :: "json \<Rightarrow> bool" where
  "hashable (JArr xs) = False"
| "hashable (JObj m) = False"
| "hashable v = True"

text \<open>
  Python's \<^verbatim>\<open>==\<close> on JSON values: \<^verbatim>\<open>True\<close> and \<^verbatim>\<open>False\<close> are the integers
  1 and 0, lists are compared element by element, dictionaries key by key.
\<close>

fun py_num :: "json \<Rightarrow> int option" where
  "py_num (JBool b) = Some (if b then 1 else 0)"
| "py_num (JInt i) = Some i"
| "py_num v = None"

fun py_eq :: "json \<Rightarrow> json \<Rightarrow> bool" where
  "py_eq JNull y = (y = JNull)"
| "py_eq (JBool b) y = (py_num y = Some (if b then 1 else 0))"
| "py_eq (JInt i) y = (py_num y = Some i)"
| "py_eq (JStr s) y = (y = JStr s)"
| "py_eq (JArr xs) y = (case y of JArr ys \<Rightarrow> list_all2 py_eq xs ys | _ \<Rightarrow> False)"
| "py_eq (JObj m) y =
     (case y of
        JObj n \<Rightarrow>
          length m = length n
          \<and> list_all (\<lambda>kv. case map_of n (fst kv) of Some w \<Rightarrow> py_eq (snd kv) w | None \<Rightarrow> False) m
      | _ \<Rightarrow> False)"

text \<open>
  \<^verbatim>\<open>x in c\<close>: key membership in a dictionary (the keys of a loaded dictionary are
  strings, so a hashable value that is no string is never found, and an unhashable one
  raises \<^verbatim>\<open>TypeError\<close>), element membership in a list, substring in a string, and
  \<^verbatim>\<open>TypeError\<close> on a container that is none of these.
\<close>

fun py_contains :: "json \<Rightarrow> json \<Rightarrow> py_error + bool" where
  "py_contains (JObj m) x =
     (if \<not> hashable x then Inl TypeError
      else case x of JStr k \<Rightarrow> Inr (map_of m k \<noteq> None) | _ \<Rightarrow> Inr False)"
| "py_contains (JArr xs) x = Inr (list_ex (py_eq x) xs)"
| "py_contains (JStr s) x = (case x of JStr u \<Rightarrow> Inr (sublist u s) | _ \<Rightarrow> Inl TypeError)"
| "py_contains c x = Inl TypeError"

text \<open>\<^verbatim>\<open>c.items()\<close>: only a dictionary has the method.\<close>

fun py_items :: "json \<Rightarrow> py_error + pydict" where
  "py_items (JObj m) = Inr m"
| "py_items c = Inl AttributeError"

text \<open>\<^verbatim>\<open>str(n)\<close> for an integer, as an f-string and \<^verbatim>\<open>json.dump\<close> print it.\<close>

definition digit_char :: "nat \<Rightarrow> char" where
  "digit_char k = ''0123456789'' ! k"

fun str_nat :: "nat \<Rightarrow> string" where
  "str_nat n = (if n < 10 then [digit_char n] else str_nat (n div 10) @ [digit_char (n mod 10)])"

declare str_nat.simps [simp del]

definition str_int :: "int \<Rightarrow> string" where
  "str_int i = (if i < 0 then CHR ''-'' # str_nat (nat (- i)) else str_nat (nat i))"

text \<open>
  The text \<^verbatim>\<open>json.dump\<close> writes for a dictionary key, which is what a later
  \<^verbatim>\<open>json.load\<close> reads back: a string stays, \<^verbatim>\<open>None\<close>, booleans and integers
  are printed.
\<close>

fun key_text :: "json \<Rightarrow> string" where
  "key_text (JStr s) = s"
| "key_text JNull = ''null''"
| "key_text (JBool b) = (if b then ''true'' else ''false'')"
| "key_text (JInt i) = str_int i"
| "key_text v = []"

text \<open>
  \<^verbatim>\<open>c[k] = v\<close> with the dictionary as a later \<^verbatim>\<open>json.dump\<close> and
  \<^verbatim>\<open>json.load\<close> hand it back, its key in the text \<^verbatim>\<open>json.dump\<close> prints for
  it. Only a dictionary takes the assignment, and only with a hashable key.
\<close>

fun py_setitem :: "json \<Rightarrow> json \<Rightarrow> json \<Rightarrow> py_error + pydict" where
  "py_setitem (JObj m) k v =
     (if \<not> hashable k then Inl TypeError else Inr (AList.update (key_text k) v m))"
| "py_setitem c k v = Inl TypeError"

section \<open>The sent-article ledger\<close>

text \<open>\<^verbatim>\<open>is_article_sent\<close>: the ledger is loaded, then \<^verbatim>\<open>article_url in sent\<close>.\<close>

definition is_article_sent :: "disk \<Rightarrow> json \<Rightarrow> py_error + bool" where
  "is_article_sent d article_url =
     (case load_cache d SentArticles of
        Inl e \<Rightarrow> Inl e
      | Inr sent \<Rightarrow> py_contains sent article_url)"

text \<open>
  \<^verbatim>\<open>filter_new_articles\<close>: the list comprehension, left to right, stopping at the first
  exception.
\<close>

fun filter_new_articles :: "disk \<Rightarrow> pydict list \<Rightarrow> py_error + pydict list" where
  "filter_new_articles d [] = Inr []"
| "filter_new_articles d (a # articles) =
     (case getitem a ''url'' of
        Inl e \<Rightarrow> Inl e
      | Inr u \<Rightarrow>
          (case is_article_sent d u of
             Inl e \<Rightarrow> Inl e
           | Inr was_sent \<Rightarrow>
               (case filter_new_articles d articles of
                  Inl e \<Rightarrow> Inl e
                | Inr new_articles \<Rightarrow> Inr (if was_sent then new_articles else a # new_articles))))"

text \<open>
  The URL of an article when it has one and it is a string, and the articles whose URL
  is no key of a ledger \<open>sent\<close>.
\<close>

definition url_of :: "pydict \<Rightarrow> string option" where
  "url_of a = (case map_of a ''url'' of Some (JStr u) \<Rightarrow> Some u | _ \<Rightarrow> None)"

definition has_url :: "pydict \<Rightarrow> bool" where
  "has_url a = (url_of a \<noteq> None)"

definition unsent :: "pydict \<Rightarrow> pydict \<Rightarrow> bool" where
  "unsent sent a = (case url_of a of Some u \<Rightarrow> map_of sent u = None | None \<Rightarrow> False)"

section \<open>Library functions and the clock\<close>

text \<open>
  A \<^verbatim>\<open>datetime\<close> is its position on the time line, in microseconds since
  \<^verbatim>\<open>datetime.min\<close> (0001-01-01T00:00:00), and is naive or carries a UTC offset.
  \<^verbatim>\<open>datetime.now()\<close> is naive; an operation reads it once, as its argument \<open>now\<close>.

  The functions of the Python library that the module calls are no code of the
  repository; they are the fields of a record that every operation takes:
  \<^verbatim>\<open>hashlib.md5(s.encode()).hexdigest()\<close>, \<^verbatim>\<open>strftime('%Y-%m-%d')\<close>,
  \<^verbatim>\<open>isoformat()\<close> and \<^verbatim>\<open>datetime.fromisoformat\<close> (\<open>None\<close> where it raises
  \<^verbatim>\<open>ValueError\<close>).
\<close>

datatype datetime = Naive int | Aware int

record pylib =
  md5_hexdigest :: "string \<Rightarrow> string"
  strftime_ymd :: "int \<Rightarrow> string"
  isoformat :: "int \<Rightarrow> string"
  fromisoformat :: "string \<Rightarrow> datetime option"

definition us_per_hour :: int where
  "us_per_hour = 3600000000"

text \<open>\<^verbatim>\<open>datetime.max\<close>, 9999-12-31T23:59:59.999999, the last microsecond of 3652059 days.\<close>

definition max_us :: int where
  "max_us = 3652059 * 24 * us_per_hour - 1"

text \<open>\<^verbatim>\<open>timedelta(hours=h)\<close> raises \<^verbatim>\<open>OverflowError\<close> beyond 999999999 days.\<close>

definition timedelta_ok :: "int \<Rightarrow> bool" where
  "timedelta_ok hours = (- 999999999 \<le> hours div 24 \<and> hours div 24 \<le> 999999999)"

text \<open>A \<^verbatim>\<open>datetime\<close> exists only between \<^verbatim>\<open>datetime.min\<close> and \<^verbatim>\<open>datetime.max\<close>.\<close>

definition in_range :: "int \<Rightarrow> bool" where
  "in_range t = (0 \<le> t \<and> t \<le> max_us)"

section \<open>Expiry\<close>

text \<open>
  The body of the \<^verbatim>\<open>try\<close> in \<^verbatim>\<open>_is_expired\<close>, with what it raises:
  \<^verbatim>\<open>fromisoformat\<close> a \<^verbatim>\<open>TypeError\<close> on a value that is no string and a
  \<^verbatim>\<open>ValueError\<close> on a string it cannot parse, \<^verbatim>\<open>timedelta\<close> and the addition
  an \<^verbatim>\<open>OverflowError\<close>, and the comparison of the naive \<^verbatim>\<open>datetime.now()\<close>
  with an aware expiry time a \<^verbatim>\<open>TypeError\<close>.
\<close>

definition expiry_check :: "pylib \<Rightarrow> int \<Rightarrow> json \<Rightarrow> int \<Rightarrow> py_error + bool" where
  "expiry_check L now timestamp expiry_hours =
     (case timestamp of
        JStr s \<Rightarrow>
          (case fromisoformat L s of
             None \<Rightarrow> Inl ValueError
           | Some cached_time \<Rightarrow>
               if \<not> timedelta_ok expiry_hours then Inl OverflowError
               else (case cached_time of
                       Naive t \<Rightarrow>
                         (let expiry_time = t + expiry_hours * us_per_hour in
                          if \<not> in_range expiry_time then Inl OverflowError
                          else Inr (now > expiry_time))
                     | Aware t \<Rightarrow>
                         (let expiry_time = t + expiry_hours * us_per_hour in
                          if \<not> in_range expiry_time then Inl OverflowError
                          else Inl TypeError)))
      | _ \<Rightarrow> Inl TypeError)"

text \<open>\<^verbatim>\<open>_is_expired\<close>: the bare \<^verbatim>\<open>except\<close> answers \<^verbatim>\<open>True\<close> to every exception.\<close>

definition is_expired :: "pylib \<Rightarrow> int \<Rightarrow> json \<Rightarrow> int \<Rightarrow> bool" where
  "is_expired L now timestamp expiry_hours =
     (case expiry_check L now timestamp expiry_hours of Inr b \<Rightarrow> b | Inl e \<Rightarrow> True)"


definition analysis_cache_expiry :: int where
  "analysis_cache_expiry = 24"

section \<open>The article cache\<close>

text \<open>\<^verbatim>\<open>_generate_cache_key\<close>: the text that is hashed, and its hash.\<close>

definition cache_key_text :: "pylib \<Rightarrow> int \<Rightarrow> string \<Rightarrow> int \<Rightarrow> string" where
  "cache_key_text L now topic max_articles =
     topic @ ''_'' @ str_int max_articles @ ''_'' @ strftime_ymd L now"

definition generate_cache_key :: "pylib \<Rightarrow> int \<Rightarrow> string \<Rightarrow> int \<Rightarrow> string" where
  "generate_cache_key L now topic max_articles =
     md5_hexdigest L (cache_key_text L now topic max_articles)"

text \<open>
  The lookup that \<^verbatim>\<open>get_cached_articles\<close> and \<^verbatim>\<open>get_cached_analysis\<close> share
  line for line: \<^verbatim>\<open>cache_key in cache\<close>, the entry under the key, its timestamp,
  the expiry test, and the payload field. \<open>None\<close> is Python's \<^verbatim>\<open>None\<close>.
\<close>

definition lookup_fresh ::
  "pylib \<Rightarrow> int \<Rightarrow> json \<Rightarrow> string \<Rightarrow> int \<Rightarrow> string \<Rightarrow> py_error + json option" where
  "lookup_fresh L now cache cache_key expiry payload =
     (case py_contains cache (JStr cache_key) of
        Inl e \<Rightarrow> Inl e
      | Inr found \<Rightarrow>
          if found
          then (case subscript cache cache_key of
                  Inl e \<Rightarrow> Inl e
                | Inr entry \<Rightarrow>
                    (case subscript entry ''timestamp'' of
                       Inl e \<Rightarrow> Inl e
                     | Inr ts \<Rightarrow>
                         if \<not> is_expired L now ts expiry
                         then (case subscript entry payload of
                                 Inl e \<Rightarrow> Inl e
                               | Inr v \<Rightarrow> Inr (Some v))
                         else Inr None))
          else Inr None)"



section \<open>The analysis cache\<close>

text \<open>\<^verbatim>\<open>[a['url'] for a in articles]\<close>.\<close>

fun article_urls :: "pydict list \<Rightarrow> py_error + json list" where
  "article_urls [] = Inr []"
| "article_urls (a # articles) =
     (case getitem a ''url'' of
        Inl e \<Rightarrow> Inl e
      | Inr u \<Rightarrow> (case article_urls articles of Inl e \<Rightarrow> Inl e | Inr us \<Rightarrow> Inr (u # us)))"

fun as_str :: "json \<Rightarrow> string option" where
  "as_str (JStr s) = Some s"
| "as_str v = None"

text \<open>
  The two lines that open \<^verbatim>\<open>get_cached_analysis\<close> and \<^verbatim>\<open>cache_analysis\<close>:
  the URLs sorted, joined with the empty separator and hashed. \<^verbatim>\<open>sorted\<close> or
  \<^verbatim>\<open>''.join\<close> raises \<^verbatim>\<open>TypeError\<close> as soon as one URL is no string.
\<close>

definition article_set_key :: "pylib \<Rightarrow> pydict list \<Rightarrow> py_error + string" where
  "article_set_key L articles =
     (case article_urls articles of
        Inl e \<Rightarrow> Inl e
      | Inr us \<Rightarrow>
          (case those (map as_str us) of
             None \<Rightarrow> Inl TypeError
           | Some strs \<Rightarrow> Inr (md5_hexdigest L (concat (sort strs)))))"

definition get_cached_analysis ::
  "pylib \<Rightarrow> int \<Rightarrow> disk \<Rightarrow> pydict list \<Rightarrow> string \<Rightarrow> py_error + json option" where
  "get_cached_analysis L now d articles topic =
     (case article_set_key L articles of
        Inl e \<Rightarrow> Inl e
      | Inr cache_key \<Rightarrow>
          (case load_cache d AnalysisCache of
             Inl e \<Rightarrow> Inl e
           | Inr cache \<Rightarrow> lookup_fresh L now cache cache_key analysis_cache_expiry ''analysis''))"

definition cache_analysis ::
  "pylib \<Rightarrow> int \<Rightarrow> disk \<Rightarrow> pydict list \<Rightarrow> string \<Rightarrow> pydict \<Rightarrow> py_error + disk" where
  "cache_analysis L now d articles topic analysis =
     (case article_set_key L articles of
        Inl e \<Rightarrow> Inl e
      | Inr cache_key \<Rightarrow>
          (case load_cache d AnalysisCache of
             Inl e \<Rightarrow> Inl e
           | Inr cache \<Rightarrow>
               (case py_setitem cache (JStr cache_key)
                       (JObj [(''topic'', JStr topic),
                              (''timestamp'', JStr (isoformat L now)),
                              (''article_count'', JInt (int (length articles))),
                              (''analysis'', JObj analysis)]) of
                  Inl e \<Rightarrow> Inl e
                | Inr cache' \<Rightarrow> Inr (save_cache d AnalysisCache cache'))))"

section \<open>Marking articles as sent\<close>

text \<open>
  \<^verbatim>\<open>mark_article_sent\<close>: the load or the assignment \<^verbatim>\<open>sent[article_url] = {...}\<close>
  may raise before anything is saved. The result is the exception, if any, and the disk
  as it is left.
\<close>

definition mark_article_sent ::
  "pylib \<Rightarrow> int \<Rightarrow> disk \<Rightarrow> json \<Rightarrow> string \<Rightarrow> py_error option \<times> disk" where
  "mark_article_sent L now d article_url topic =
     (case load_cache d SentArticles of
        Inl e \<Rightarrow> (Some e, d)
      | Inr sent \<Rightarrow>
          (case py_setitem sent article_url
                  (JObj [(''topic'', JStr topic), (''sent_at'', JStr (isoformat L now))]) of
             Inl e \<Rightarrow> (Some e, d)
           | Inr sent' \<Rightarrow> (None, save_cache d SentArticles sent')))"

text \<open>\<^verbatim>\<open>mark_articles_sent\<close>: the loop stops at the first exception; what was saved stays.\<close>

fun mark_articles_sent ::
  "pylib \<Rightarrow> int \<Rightarrow> disk \<Rightarrow> pydict list \<Rightarrow> string \<Rightarrow> py_error option \<times> disk" where
  "mark_articles_sent L now d [] topic = (None, d)"
| "mark_articles_sent L now d (article # articles) topic =
     (case getitem article ''url'' of
        Inl e \<Rightarrow> (Some e, d)
      | Inr u \<Rightarrow>
          (case mark_article_sent L now d u topic of
             (Some e, d') \<Rightarrow> (Some e, d')
           | (None, d') \<Rightarrow> mark_articles_sent L now d' articles topic))"

section \<open>The retention sweep\<close>

text \<open>
  The loop that \<^verbatim>\<open>cleanup_old_cache\<close> runs over the entries of each of the three
  stores: the entries in order, the survivors collected in \<open>new_cache\<close>, the others
  counted. The stores differ in the timestamp field and the window only.
\<close>

fun sweep ::
  "pylib \<Rightarrow> int \<Rightarrow> string \<Rightarrow> int \<Rightarrow> pydict \<Rightarrow> int \<Rightarrow> pydict \<Rightarrow> py_error + (pydict \<times> int)" where
  "sweep L now field hours new_cache cleaned [] = Inr (new_cache, cleaned)"
| "sweep L now field hours new_cache cleaned ((key, entry) # items) =
     (case subscript entry field of
        Inl e \<Rightarrow> Inl e
      | Inr ts \<Rightarrow>
          if \<not> is_expired L now ts hours
          then sweep L now field hours (AList.update key entry new_cache) cleaned items
          else sweep L now field hours new_cache (cleaned + 1) items)"

text \<open>
  The first lines of each of the three blocks: the store is loaded, \<^verbatim>\<open>.items()\<close> is
  taken of what was loaded, and the loop runs from an empty \<open>new_cache\<close> and a count
  of 0.
\<close>

definition sweep_store ::
  "pylib \<Rightarrow> int \<Rightarrow> disk \<Rightarrow> cache_file \<Rightarrow> string \<Rightarrow> int \<Rightarrow> py_error + (pydict \<times> int)" where
  "sweep_store L now d cache_file field hours =
     (case load_cache d cache_file of
        Inl e \<Rightarrow> Inl e
      | Inr cache \<Rightarrow>
          (case py_items cache of
             Inl e \<Rightarrow> Inl e
           | Inr items \<Rightarrow> sweep L now field hours [] 0 items))"









section \<open>Sample values\<close>

text \<open>
  Concrete inputs for the examples. \<open>t0\<close> is 2024-01-01T00:00:00 in microseconds since
  \<^verbatim>\<open>datetime.min\<close>. \<open>sample_lib\<close> gives the library functions at the dates and
  timestamps the examples use (\<^verbatim>\<open>strftime\<close> on the first two days of 2024,
  \<^verbatim>\<open>isoformat\<close> and \<^verbatim>\<open>fromisoformat\<close> on \<open>t0\<close>, \<^verbatim>\<open>fromisoformat\<close>
  also on \<open>t0\<close> with a UTC offset); its hash is the identity, a function without
  collisions.
\<close>

definition t0 :: int where
  "t0 = 63839664000000000"

definition sample_lib :: pylib where
  "sample_lib =
     \<lparr> md5_hexdigest = (\<lambda>s. s),
       strftime_ymd = (\<lambda>t. if t div (24 * us_per_hour) = 738885 then ''2024-01-01''
                            else if t div (24 * us_per_hour) = 738886 then ''2024-01-02''
                            else []),
       isoformat = (\<lambda>t. if t = 63839664000000000 then ''2024-01-01T00:00:00'' else []),
       fromisoformat = (\<lambda>s. if s = ''2024-01-01T00:00:00'' then Some (Naive 63839664000000000)
                             else if s = ''2024-01-01T00:00:00+00:00'' then Some (Aware 63839664000000000)
                             else None) \<rparr>"

text \<open>
  An article that has its URL only, a disk whose ledger holds \<^verbatim>\<open>u1\<close>, and a disk
  whose directory may not be searched.
\<close>

definition article :: "string \<Rightarrow> pydict" where
  "article u = [(''url'', JStr u)]"

definition sent_mark :: json where
  "sent_mark = JObj [(''topic'', JStr ''Crypto''), (''sent_at'', JStr ''2024-01-01T00:00:00'')]"

definition sample_disk :: disk where
  "sample_disk =
     \<lparr> files = (\<lambda>f. if f = SentArticles then Doc (JObj [(''u1'', sent_mark)]) else Absent),
       writable = (\<lambda>f. True) \<rparr>"

definition locked_disk :: disk where
  "locked_disk = \<lparr> files = (\<lambda>f. Inaccessible), writable = (\<lambda>f. False) \<rparr>"




text \<open>The value under \<^verbatim>\<open>'url'\<close> of an article that has the key.\<close>

definition url_json :: "pydict \<Rightarrow> json" where
  "url_json a = the (map_of a ''url'')"

section \<open>Properties\<close>

subsection \<open>Loading and saving\<close>

lemma load_cache_accessible:
  "load_cache d f = Inr v \<Longrightarrow> files d f \<noteq> Inaccessible"
  by (auto simp: load_cache_def)

lemma load_save_same:
  "writable d f \<Longrightarrow> files d f \<noteq> Inaccessible \<Longrightarrow> load_cache (save_cache d f x) f = Inr (JObj x)"
  by (simp add: load_cache_def save_cache_def)




lemma accessible_save:
  "files (save_cache d g x) f = Inaccessible \<longleftrightarrow> files d f = Inaccessible"
  by (simp add: save_cache_def)

subsection \<open>The dedup gate\<close>

lemma is_article_sent_str:
  "load_cache d SentArticles = Inr (JObj sent)
   \<Longrightarrow> is_article_sent d (JStr u) = Inr (map_of sent u \<noteq> None)"
  by (simp add: is_article_sent_def)

lemma has_url_getitem:
  assumes "has_url a"
  shows "\<exists>u. getitem a ''url'' = Inr (JStr u) \<and> url_of a = Some u"
  using assms
  by (auto simp: has_url_def url_of_def getitem_def split: option.splits json.splits)

lemma filter_new_articles_filter:
  assumes "list_all has_url articles" and ld: "load_cache d SentArticles = Inr (JObj sent)"
  shows "filter_new_articles d articles = Inr (filter (unsent sent) articles)"
  using assms(1)
proof (induction articles)
  case Nil
  show ?case by simp
next
  case (Cons a articles)
  from Cons.prems have "has_url a" by simp
  then obtain u where u: "getitem a ''url'' = Inr (JStr u)" "url_of a = Some u"
    using has_url_getitem by blast
  from Cons have rest: "filter_new_articles d articles = Inr (filter (unsent sent) articles)"
    by simp
  have head: "unsent sent a = (map_of sent u = None)"
    by (simp add: unsent_def u)
  show ?case
    by (auto simp: u rest is_article_sent_str [OF ld] head)
qed

text \<open>
  C1. For every ledger that loads as a mapping (the ledger file is absent, unreadable,
  corrupt, or holds a JSON object) and every list of articles that each carry a string
  \<^verbatim>\<open>url\<close>, \<^verbatim>\<open>filter_new_articles\<close> returns, without raising, exactly the
  articles whose URL is not a key of the ledger, in their original order.
\<close>

theorem filter_new_articles_subsequence:
  assumes "list_all has_url articles" and "load_cache d SentArticles = Inr (JObj sent)"
  shows "filter_new_articles d articles = Inr (filter (unsent sent) articles)"
  using assms by (rule filter_new_articles_filter)

text \<open>
  The witness of C1: with \<^verbatim>\<open>u1\<close> in the ledger, of the articles \<^verbatim>\<open>u1\<close>,
  \<^verbatim>\<open>u3\<close> only \<^verbatim>\<open>u3\<close> is returned.
\<close>

theorem filter_new_articles_subsequence_witness:
  "list_all has_url [article ''u1'', article ''u3'']
   \<and> load_cache sample_disk SentArticles = Inr (JObj [(''u1'', sent_mark)])
   \<and> filter_new_articles sample_disk [article ''u1'', article ''u3''] = Inr [article ''u3'']"
proof -
  have h1: "list_all has_url [article ''u1'', article ''u3'']"
    by (simp add: has_url_def url_of_def article_def)
  have h2: "load_cache sample_disk SentArticles = Inr (JObj [(''u1'', sent_mark)])"
    by (simp add: load_cache_def sample_disk_def)
  from filter_new_articles_subsequence [OF h1 h2]
  have "filter_new_articles sample_disk [article ''u1'', article ''u3''] = Inr [article ''u3'']"
    by (simp add: unsent_def url_of_def article_def)
  with h1 h2 show ?thesis by (intro conjI)
qed

text \<open>
  C8. \<^verbatim>\<open>_load_cache\<close> does raise: \<^verbatim>\<open>cache_file.exists()\<close> is called before the
  \<^verbatim>\<open>try\<close>, and on a path that cannot be reached its \<^verbatim>\<open>OSError\<close> leaves the
  function, where the claim has the empty mapping returned.
\<close>

theorem load_cache_raises_unreachable:
  "files locked_disk ArticlesCache = Inaccessible
   \<and> load_cache locked_disk ArticlesCache = Inl OSError"
  by (simp add: load_cache_def locked_disk_def)

subsection \<open>Fingerprints\<close>

lemma article_urls_char:
  "article_urls A =
     (if \<forall>a \<in> set A. map_of a ''url'' \<noteq> None
      then Inr (map (\<lambda>a. the (map_of a ''url'')) A) else Inl KeyError)"
proof (induction A)
  case Nil
  show ?case by simp
next
  case (Cons a A)
  show ?case
  proof (cases "map_of a ''url''")
    case None
    then show ?thesis by (simp add: getitem_def)
  next
    case (Some v)
    then show ?thesis by (simp add: getitem_def Cons.IH)
  qed
qed

lemma those_as_str_char:
  "those (map as_str us) =
     (if \<forall>u \<in> set us. as_str u \<noteq> None then Some (map (\<lambda>u. the (as_str u)) us) else None)"
proof (induction us)
  case Nil
  show ?case by simp
next
  case (Cons u us)
  show ?case
  proof (cases "as_str u")
    case None
    then show ?thesis by simp
  next
    case (Some s)
    then show ?thesis by (simp add: Cons.IH)
  qed
qed

lemma sort_mset_cong:
  fixes xs ys :: "string list"
  assumes "mset xs = mset ys"
  shows "sort xs = sort ys"
proof -
  have "mset (sort ys) = mset xs" using assms by simp
  moreover have "sorted (sort ys)" by simp
  ultimately show ?thesis by (rule properties_for_sort)
qed

lemma article_set_key_char:
  "article_set_key L A =
     (if \<not> (\<forall>a \<in> set A. map_of a ''url'' \<noteq> None) then Inl KeyError
      else if \<not> (\<forall>u \<in> set (map url_json A). as_str u \<noteq> None) then Inl TypeError
      else Inr (md5_hexdigest L (concat (sort (map (\<lambda>u. the (as_str u)) (map url_json A))))))"
proof -
  have u: "article_urls A =
     (if \<forall>a \<in> set A. map_of a ''url'' \<noteq> None then Inr (map url_json A) else Inl KeyError)"
    unfolding url_json_def by (rule article_urls_char)
  show ?thesis
  proof (cases "\<forall>a \<in> set A. map_of a ''url'' \<noteq> None")
    case False
    then have "article_urls A = Inl KeyError"
      unfolding u by (rule if_not_P)
    with False show ?thesis
      unfolding article_set_key_def by (simp only: sum.case if_P not_False_eq_True)
  next
    case True
    then have "article_urls A = Inr (map url_json A)"
      unfolding u by (rule if_P)
    then have k: "article_set_key L A =
        (case those (map as_str (map url_json A)) of
           None \<Rightarrow> Inl TypeError
         | Some strs \<Rightarrow> Inr (md5_hexdigest L (concat (sort strs))))"
      unfolding article_set_key_def by (simp only: sum.case)
    show ?thesis
    proof (cases "\<forall>u \<in> set (map url_json A). as_str u \<noteq> None")
      case all_str: True
      then have "those (map as_str (map url_json A)) = Some (map (\<lambda>u. the (as_str u)) (map url_json A))"
        unfolding those_as_str_char [of "map url_json A"] by (rule if_P)
      then have "article_set_key L A =
          Inr (md5_hexdigest L (concat (sort (map (\<lambda>u. the (as_str u)) (map url_json A)))))"
        unfolding k by (simp only: option.case)
      with True all_str show ?thesis by simp
    next
      case some_other: False
      then have "those (map as_str (map url_json A)) = None"
        unfolding those_as_str_char [of "map url_json A"] by (rule if_not_P)
      then have "article_set_key L A = Inl TypeError"
        unfolding k by (simp only: option.case)
      with True some_other show ?thesis by simp
    qed
  qed
qed

text \<open>
  C5. The article-set key that \<^verbatim>\<open>get_cached_analysis\<close> and \<^verbatim>\<open>cache_analysis\<close>
  compute is the same for a list of articles and for every permutation of it (the same
  key, or the same exception when an article has no string URL).
\<close>

theorem article_set_key_permutation:
  assumes "mset A = mset B"
  shows "article_set_key L A = article_set_key L B"
proof -
  from assms have s: "set A = set B" by (rule mset_eq_setD)
  have m: "mset (map (\<lambda>u. the (as_str u)) (map url_json A))
      = mset (map (\<lambda>u. the (as_str u)) (map url_json B))"
    using assms by simp
  have srt: "sort (map (\<lambda>u. the (as_str u)) (map url_json A))
      = sort (map (\<lambda>u. the (as_str u)) (map url_json B))"
    using m by (rule sort_mset_cong)
  have s2: "set (map url_json A) = set (map url_json B)"
    using s by simp
  show ?thesis
    unfolding article_set_key_char s s2 srt ..
qed

text \<open>The witness of C5: two articles in both orders.\<close>

theorem article_set_key_permutation_witness:
  "mset [article ''b'', article ''a''] = mset [article ''a'', article ''b'']
   \<and> article_set_key sample_lib [article ''b'', article ''a'']
       = article_set_key sample_lib [article ''a'', article ''b'']"
proof -
  have m: "mset [article ''b'', article ''a''] = mset [article ''a'', article ''b'']"
    by (simp add: add_mset_commute)
  from m article_set_key_permutation [OF m, of sample_lib] show ?thesis by (rule conjI)
qed

text \<open>
  C10. The article lists with the URLs \<^verbatim>\<open>ab\<close>, \<^verbatim>\<open>c\<close> and with the URLs
  \<^verbatim>\<open>a\<close>, \<^verbatim>\<open>bc\<close> have different URL sets and the same analysis-cache key, the
  hash of \<^verbatim>\<open>abc\<close>, whatever the hash function: the sorted URLs are joined without
  a separator.
\<close>

theorem article_set_key_collision:
  "article_set_key L [article ''ab'', article ''c''] = Inr (md5_hexdigest L ''abc'')
   \<and> article_set_key L [article ''a'', article ''bc''] = Inr (md5_hexdigest L ''abc'')
   \<and> {''ab'', ''c''} \<noteq> {''a'', ''bc''}"
proof -
  have k1: "article_set_key L [article ''ab'', article ''c''] = Inr (md5_hexdigest L ''abc'')"
    unfolding article_def by (simp add: article_set_key_def getitem_def)
  have k2: "article_set_key L [article ''a'', article ''bc''] = Inr (md5_hexdigest L ''abc'')"
    unfolding article_def by (simp add: article_set_key_def getitem_def)
  have k3: "{''ab'', ''c''} \<noteq> {''a'', ''bc''}"
  proof
    assume eq: "{''ab'', ''c''} = {''a'', ''bc''}"
    have "''c'' \<in> {''ab'', ''c''}" by simp
    then have "''c'' \<in> {''a'', ''bc''}" unfolding eq .
    then show False by simp
  qed
  from k1 k2 k3 show ?thesis by (intro conjI)
qed

text \<open>
  The claim C3 as it is stated fails: the timestamp below parses, the current time is
  not after the timestamp plus the window of 80000000 hours, and the answer is
  \<^verbatim>\<open>True\<close>, because the expiry time lies beyond \<^verbatim>\<open>datetime.max\<close> and the
  \<^verbatim>\<open>OverflowError\<close> is caught.
\<close>

theorem is_expired_overflow_counterexample:
  "fromisoformat sample_lib ''2024-01-01T00:00:00'' = Some (Naive t0)
   \<and> t0 \<le> t0 + 80000000 * us_per_hour
   \<and> is_expired sample_lib t0 (JStr ''2024-01-01T00:00:00'') 80000000"
  by (simp add: sample_lib_def t0_def is_expired_def expiry_check_def timedelta_ok_def
        in_range_def max_us_def us_per_hour_def)

text \<open>
  C3, amended. For a timestamp that parses to a naive \<^verbatim>\<open>datetime\<close> \<open>T\<close> and a
  window \<open>W\<close> for which \<^verbatim>\<open>timedelta(hours=W)\<close> and \<open>T + W\<close> exist,
  \<^verbatim>\<open>_is_expired\<close> is true exactly when the current time is strictly after
  \<open>T + W\<close>; for a string that does not parse it is true.
\<close>

theorem is_expired_boundary:
  "(fromisoformat L s = Some (Naive T) \<and> timedelta_ok W \<and> in_range (T + W * us_per_hour)
      \<longrightarrow> is_expired L now (JStr s) W = (T + W * us_per_hour < now))
   \<and> (fromisoformat L s' = None \<longrightarrow> is_expired L now' (JStr s') W')"
  by (simp add: is_expired_def expiry_check_def Let_def)

text \<open>
  The witness of C3: a record of 2024-01-01T00:00:00 and a window of 24 hours, asked
  at the last moment of the window, and a string that is no timestamp.
\<close>

theorem is_expired_boundary_witness:
  "fromisoformat sample_lib ''2024-01-01T00:00:00'' = Some (Naive t0) \<and> timedelta_ok 24
   \<and> in_range (t0 + 24 * us_per_hour) \<and> fromisoformat sample_lib ''yesterday'' = None
   \<and> \<not> is_expired sample_lib (t0 + 24 * us_per_hour) (JStr ''2024-01-01T00:00:00'') 24
   \<and> is_expired sample_lib t0 (JStr ''yesterday'') 24"
proof -
  have h1: "fromisoformat sample_lib ''2024-01-01T00:00:00'' = Some (Naive t0)"
    by (simp add: sample_lib_def t0_def)
  have h2: "timedelta_ok 24" by (simp add: timedelta_ok_def)
  have h3: "in_range (t0 + 24 * us_per_hour)"
    by (simp add: in_range_def t0_def max_us_def us_per_hour_def)
  have h4: "fromisoformat sample_lib ''yesterday'' = None"
    by (simp add: sample_lib_def)
  from is_expired_boundary [of sample_lib "''2024-01-01T00:00:00''" t0 24 "t0 + 24 * us_per_hour"
        "''yesterday''" t0 24] h1 h2 h3 h4
  show ?thesis by simp
qed

text \<open>
  C4. Two calls of \<^verbatim>\<open>_generate_cache_key\<close> with the same topic and count give the
  same key when the calendar day (the text of \<^verbatim>\<open>strftime('%Y-%m-%d')\<close>) is the
  same, and different keys when the days differ, the hash having no collision among the
  day variants of the key text.
\<close>

theorem generate_cache_key_days:
  "(strftime_ymd L now1 = strftime_ymd L now2
      \<longrightarrow> generate_cache_key L now1 topic n = generate_cache_key L now2 topic n)
   \<and> (strftime_ymd L now1 \<noteq> strftime_ymd L now2
        \<and> inj_on (md5_hexdigest L) (range (\<lambda>t. cache_key_text L t topic n))
      \<longrightarrow> generate_cache_key L now1 topic n \<noteq> generate_cache_key L now2 topic n)"
proof (intro conjI impI)
  assume "strftime_ymd L now1 = strftime_ymd L now2"
  then show "generate_cache_key L now1 topic n = generate_cache_key L now2 topic n"
    by (simp add: generate_cache_key_def cache_key_text_def)
next
  assume a: "strftime_ymd L now1 \<noteq> strftime_ymd L now2
        \<and> inj_on (md5_hexdigest L) (range (\<lambda>t. cache_key_text L t topic n))"
  then have texts: "cache_key_text L now1 topic n \<noteq> cache_key_text L now2 topic n"
    by (simp add: cache_key_text_def)
  from a have "inj_on (md5_hexdigest L) (range (\<lambda>t. cache_key_text L t topic n))" ..
  then have "md5_hexdigest L (cache_key_text L now1 topic n) = md5_hexdigest L (cache_key_text L now2 topic n)
      \<Longrightarrow> cache_key_text L now1 topic n = cache_key_text L now2 topic n"
    by (rule inj_onD) simp_all
  with texts show "generate_cache_key L now1 topic n \<noteq> generate_cache_key L now2 topic n"
    unfolding generate_cache_key_def by blast
qed

text \<open>The witness of C4: one hour later on 2024-01-01, and the next day.\<close>

theorem generate_cache_key_days_witness:
  "strftime_ymd sample_lib t0 = strftime_ymd sample_lib (t0 + us_per_hour)
   \<and> strftime_ymd sample_lib t0 \<noteq> strftime_ymd sample_lib (t0 + 24 * us_per_hour)
   \<and> inj_on (md5_hexdigest sample_lib) (range (\<lambda>t. cache_key_text sample_lib t ''Crypto'' 10))
   \<and> generate_cache_key sample_lib t0 ''Crypto'' 10 = generate_cache_key sample_lib (t0 + us_per_hour) ''Crypto'' 10
   \<and> generate_cache_key sample_lib t0 ''Crypto'' 10 \<noteq> generate_cache_key sample_lib (t0 + 24 * us_per_hour) ''Crypto'' 10"
proof -
  have h1: "strftime_ymd sample_lib t0 = strftime_ymd sample_lib (t0 + us_per_hour)"
    by (simp add: sample_lib_def t0_def us_per_hour_def)
  have h2: "strftime_ymd sample_lib t0 \<noteq> strftime_ymd sample_lib (t0 + 24 * us_per_hour)"
    by (simp add: sample_lib_def t0_def us_per_hour_def)
  have h3: "inj_on (md5_hexdigest sample_lib) (range (\<lambda>t. cache_key_text sample_lib t ''Crypto'' 10))"
    by (simp add: sample_lib_def inj_on_def)
  from generate_cache_key_days [of sample_lib t0 "t0 + us_per_hour" "''Crypto''" 10] h1
  have r1: "generate_cache_key sample_lib t0 ''Crypto'' 10 = generate_cache_key sample_lib (t0 + us_per_hour) ''Crypto'' 10"
    by (simp only: simp_thms)
  from generate_cache_key_days [of sample_lib t0 "t0 + 24 * us_per_hour" "''Crypto''" 10] h2 h3
  have r2: "generate_cache_key sample_lib t0 ''Crypto'' 10 \<noteq> generate_cache_key sample_lib (t0 + 24 * us_per_hour) ''Crypto'' 10"
    by (simp only: simp_thms)
  from h1 h2 h3 r1 r2 show ?thesis by (intro conjI)
qed


subsection \<open>The article cache\<close>



subsection \<open>Marking and filtering again\<close>

lemma mark_article_sent_str:
  assumes "load_cache d SentArticles = Inr (JObj sent)"
  shows "mark_article_sent L now d (JStr u) topic =
     (None, save_cache d SentArticles
        (AList.update u (JObj [(''topic'', JStr topic), (''sent_at'', JStr (isoformat L now))]) sent))"
  by (simp add: mark_article_sent_def assms)

lemma load_after_save_mapping:
  assumes "load_cache d f = Inr (JObj m)"
  shows "\<exists>m'. load_cache (save_cache d f x) f = Inr (JObj m')"
proof (cases "writable d f")
  case True
  with load_save_same [OF True load_cache_accessible [OF assms]] show ?thesis by blast
next
  case False
  then have "save_cache d f x = d" by (simp add: save_cache_def)
  with assms show ?thesis by simp
qed





subsection \<open>Articles without a URL\<close>

lemma article_urls_missing:
  assumes "a \<in> set articles" "map_of a ''url'' = None"
  shows "article_urls articles = Inl KeyError"
  using assms unfolding article_urls_char by auto

lemma filter_new_articles_missing:
  assumes "a \<in> set articles" "map_of a ''url'' = None"
  shows "\<exists>e. filter_new_articles d articles = Inl e"
  using assms
proof (induction articles)
  case Nil
  then show ?case by simp
next
  case (Cons b articles)
  show ?case
  proof (cases "a = b")
    case True
    with Cons.prems show ?thesis by (simp add: getitem_def)
  next
    case False
    with Cons.prems have "a \<in> set articles" by simp
    from Cons.IH [OF this Cons.prems(2)] obtain e where "filter_new_articles d articles = Inl e" ..
    then show ?thesis by (simp split: sum.splits)
  qed
qed

lemma mark_articles_sent_missing:
  assumes "a \<in> set articles" "map_of a ''url'' = None"
  shows "\<exists>e. fst (mark_articles_sent L now d articles topic) = Some e"
  using assms
proof (induction articles arbitrary: d)
  case Nil
  then show ?case by simp
next
  case (Cons b articles)
  show ?case
  proof (cases "a = b")
    case True
    with Cons.prems show ?thesis by (simp add: getitem_def)
  next
    case False
    with Cons.prems have "a \<in> set articles" by simp
    from Cons.IH [OF this Cons.prems(2)]
    have "\<And>d1. \<exists>e. fst (mark_articles_sent L now d1 articles topic) = Some e" .
    then show ?thesis by (auto split: sum.splits prod.splits option.splits)
  qed
qed

text \<open>
  The claim C9 as it is stated fails: an article whose \<^verbatim>\<open>url\<close> is the empty string
  raises nothing. The fingerprint is the hash of the empty text,
  \<^verbatim>\<open>filter_new_articles\<close> returns the article, and \<^verbatim>\<open>mark_articles_sent\<close>
  stores a ledger entry under the empty key, which \<^verbatim>\<open>is_article_sent\<close> then finds.
\<close>

theorem empty_url_accepted_counterexample:
  "map_of (article []) ''url'' = Some (JStr [])
   \<and> article_set_key sample_lib [article []] = Inr (md5_hexdigest sample_lib [])
   \<and> filter_new_articles sample_disk [article []] = Inr [article []]
   \<and> fst (mark_articles_sent sample_lib t0 sample_disk [article []] ''Crypto'') = None
   \<and> is_article_sent (snd (mark_articles_sent sample_lib t0 sample_disk [article []] ''Crypto'')) (JStr [])
       = Inr True"
proof -
  have ld: "load_cache sample_disk SentArticles = Inr (JObj [(''u1'', sent_mark)])"
    by (simp add: load_cache_def sample_disk_def)
  have w: "writable sample_disk SentArticles" by (simp add: sample_disk_def)
  have c1: "map_of (article []) ''url'' = Some (JStr [])" by (simp add: article_def)
  have c2: "article_set_key sample_lib [article []] = Inr (md5_hexdigest sample_lib [])"
    by (simp add: article_set_key_def getitem_def article_def)
  have c3: "filter_new_articles sample_disk [article []] = Inr [article []]"
    by (simp add: getitem_def article_def is_article_sent_str [OF ld])
  have mk: "mark_articles_sent sample_lib t0 sample_disk [article []] ''Crypto'' =
      (None, save_cache sample_disk SentArticles
         (AList.update [] (JObj [(''topic'', JStr ''Crypto''), (''sent_at'', JStr (isoformat sample_lib t0))])
            [(''u1'', sent_mark)]))"
    by (simp add: getitem_def article_def mark_article_sent_str [OF ld])
  have l2: "load_cache (save_cache sample_disk SentArticles
         (AList.update [] (JObj [(''topic'', JStr ''Crypto''), (''sent_at'', JStr (isoformat sample_lib t0))])
            [(''u1'', sent_mark)])) SentArticles
      = Inr (JObj (AList.update [] (JObj [(''topic'', JStr ''Crypto''), (''sent_at'', JStr (isoformat sample_lib t0))])
            [(''u1'', sent_mark)]))"
    using w load_cache_accessible [OF ld] by (rule load_save_same)
  have c4: "fst (mark_articles_sent sample_lib t0 sample_disk [article []] ''Crypto'') = None"
    unfolding mk by simp
  have c5: "is_article_sent (snd (mark_articles_sent sample_lib t0 sample_disk [article []] ''Crypto'')) (JStr [])
       = Inr True"
  proof -
    have "is_article_sent (snd (mark_articles_sent sample_lib t0 sample_disk [article []] ''Crypto'')) (JStr [])
       = Inr (map_of (AList.update [] (JObj [(''topic'', JStr ''Crypto''), (''sent_at'', JStr (isoformat sample_lib t0))])
            [(''u1'', sent_mark)]) [] \<noteq> None)"
      unfolding mk snd_conv by (rule is_article_sent_str [OF l2])
    then show ?thesis by (simp add: update_conv')
  qed
  from c1 c2 c3 c4 c5 show ?thesis by (intro conjI)
qed

text \<open>
  C9, amended. When an article of the list has no \<^verbatim>\<open>url\<close> key,
  \<^verbatim>\<open>get_cached_analysis\<close> and \<^verbatim>\<open>cache_analysis\<close> raise \<^verbatim>\<open>KeyError\<close>,
  and \<^verbatim>\<open>filter_new_articles\<close> and \<^verbatim>\<open>mark_articles_sent\<close> raise an exception.
  An article whose \<^verbatim>\<open>url\<close> is the empty string raises nothing: its fingerprint
  is the hash of the empty text and, on a ledger that loads as a mapping,
  \<^verbatim>\<open>filter_new_articles\<close> decides on the key \<^verbatim>\<open>''\<close> and
  \<^verbatim>\<open>mark_articles_sent\<close> returns.
\<close>

theorem missing_url_raises:
  "(a \<in> set articles \<and> map_of a ''url'' = None \<longrightarrow>
      get_cached_analysis L now d articles topic = Inl KeyError
      \<and> cache_analysis L now d articles topic analysis = Inl KeyError
      \<and> (\<exists>e. filter_new_articles d articles = Inl e)
      \<and> (\<exists>e. fst (mark_articles_sent L now d articles topic) = Some e))
   \<and> (map_of b ''url'' = Some (JStr []) \<and> load_cache d' SentArticles = Inr (JObj sent) \<longrightarrow>
      article_set_key L [b] = Inr (md5_hexdigest L [])
      \<and> filter_new_articles d' [b] = Inr (if map_of sent [] = None then [b] else [])
      \<and> fst (mark_articles_sent L now d' [b] topic) = None)"
proof (intro conjI impI)
  assume a: "a \<in> set articles \<and> map_of a ''url'' = None"
  then have m: "a \<in> set articles" "map_of a ''url'' = None" by simp_all
  have k: "article_set_key L articles = Inl KeyError"
    by (simp add: article_set_key_def article_urls_missing [OF m])
  show "get_cached_analysis L now d articles topic = Inl KeyError"
    by (simp add: get_cached_analysis_def k)
  show "cache_analysis L now d articles topic analysis = Inl KeyError"
    by (simp add: cache_analysis_def k)
  show "\<exists>e. filter_new_articles d articles = Inl e"
    by (rule filter_new_articles_missing [OF m])
  show "\<exists>e. fst (mark_articles_sent L now d articles topic) = Some e"
    by (rule mark_articles_sent_missing [OF m])
next
  assume b: "map_of b ''url'' = Some (JStr []) \<and> load_cache d' SentArticles = Inr (JObj sent)"
  then have u: "map_of b ''url'' = Some (JStr [])"
    and ld: "load_cache d' SentArticles = Inr (JObj sent)" by simp_all
  show "article_set_key L [b] = Inr (md5_hexdigest L [])"
    by (simp add: article_set_key_def getitem_def u)
  show "filter_new_articles d' [b] = Inr (if map_of sent [] = None then [b] else [])"
    by (simp add: getitem_def u is_article_sent_str [OF ld])
  show "fst (mark_articles_sent L now d' [b] topic) = None"
    by (simp add: getitem_def u mark_article_sent_str [OF ld])
qed

text \<open>
  The witness of C9: an article with a title and no URL, and an article with the empty
  URL.
\<close>

theorem missing_url_raises_witness:
  "[(''title'', JStr ''x'')] \<in> set [[(''title'', JStr ''x'')]]
   \<and> map_of [(''title'', JStr ''x'')] ''url'' = None
   \<and> map_of (article []) ''url'' = Some (JStr [])
   \<and> load_cache sample_disk SentArticles = Inr (JObj [(''u1'', sent_mark)])
   \<and> get_cached_analysis sample_lib t0 sample_disk [[(''title'', JStr ''x'')]] ''Crypto'' = Inl KeyError
   \<and> cache_analysis sample_lib t0 sample_disk [[(''title'', JStr ''x'')]] ''Crypto'' [] = Inl KeyError
   \<and> filter_new_articles sample_disk [[(''title'', JStr ''x'')]] = Inl KeyError
   \<and> fst (mark_articles_sent sample_lib t0 sample_disk [[(''title'', JStr ''x'')]] ''Crypto'') = Some KeyError
   \<and> article_set_key sample_lib [article []] = Inr (md5_hexdigest sample_lib [])
   \<and> filter_new_articles sample_disk [article []] = Inr [article []]
   \<and> fst (mark_articles_sent sample_lib t0 sample_disk [article []] ''Crypto'') = None"
proof -
  have h1: "[(''title'', JStr ''x'')] \<in> set [[(''title'', JStr ''x'')]]" by simp
  have h2: "map_of [(''title'', JStr ''x'')] ''url'' = None" by simp
  have h3: "map_of (article []) ''url'' = Some (JStr [])" by (simp add: article_def)
  have h4: "load_cache sample_disk SentArticles = Inr (JObj [(''u1'', sent_mark)])"
    by (simp add: load_cache_def sample_disk_def)
  have e3: "filter_new_articles sample_disk [[(''title'', JStr ''x'')]] = Inl KeyError"
    by (simp add: getitem_def)
  have e4: "fst (mark_articles_sent sample_lib t0 sample_disk [[(''title'', JStr ''x'')]] ''Crypto'') = Some KeyError"
    by (simp add: getitem_def)
  from missing_url_raises [of "[(''title'', JStr ''x'')]" "[[(''title'', JStr ''x'')]]" sample_lib t0
         sample_disk "''Crypto''" "[]" "article []" sample_disk "[(''u1'', sent_mark)]"] h1 h2 h3 h4 e3 e4
  show ?thesis by simp
qed

subsection \<open>The retention sweep\<close>











lemma sweep_store_cong:
  "load_cache d1 f = load_cache d f \<Longrightarrow> sweep_store L now d1 f field W = sweep_store L now d f field W"
  by (simp add: sweep_store_def)














end
